theory Spec2Isabelle
  imports Complex_Main
begin

section \<open>Data model\<close>

text \<open>
  The backend keeps two MongoDB collections that matter to the scheduler: routines
  (models/Routine.js) and notifications (models/Notification.js). A collection is a
  list of documents in natural order; an ObjectId is a natural number; a Date is the
  number of milliseconds since the epoch. Strings stay strings: the status of a
  notification is assigned from the request's \<open>action\<close> string, so no closed
  datatype of statuses would be faithful.
\<close>

type_synonym oid = nat
type_synonym date = int

record scheduleEntry =
  time :: string
  days :: "int list"

record adaptiveTiming =
  enabled :: bool
  adjustment :: int
  lastAdjustment :: "date option"

text \<open>
  The routine schema also declares category, priority and notificationSettings
  (snoozeDuration, maxSnoozes); no function embedded below reads them.
\<close>

record routine =
  r_id :: oid
  r_user :: oid
  r_title :: string
  r_description :: string
  r_schedule :: "scheduleEntry list"
  r_sound :: string
  r_volume :: rat
  r_isActive :: bool
  r_adaptiveTiming :: adaptiveTiming

record userResponse =
  action :: string
  responseTime :: "int option"
  timestamp :: date

record metadata =
  originalSchedule :: string
  adaptiveAdjustment :: int

record notification =
  n_id :: oid
  n_user :: oid
  n_routine :: oid
  n_title :: string
  n_message :: string
  n_type :: string
  n_sound :: string
  n_volume :: rat
  n_status :: string
  n_userResponse :: "userResponse option"
  n_deliveryAttempts :: int
  n_scheduledFor :: date
  n_deliveredAt :: "date option"
  n_completedAt :: "date option"
  n_snoozedUntil :: "date option"
  n_metadata :: metadata

text \<open>
  The response route reads and assigns a field \<open>processing\<close>. The notification schema
  declares no such path: an assignment to it is not saved and a loaded document never
  carries it, so reading it yields \<open>undefined\<close>, here \<open>None\<close>.
\<close>

definition processing :: "notification \<Rightarrow> bool option" where
  "processing n = None"

section \<open>Routine store\<close>

definition routineFindById :: "routine list \<Rightarrow> oid \<Rightarrow> routine option" where
  "routineFindById rs i = find (\<lambda>r. r_id r = i) rs"

definition routineSave :: "routine list \<Rightarrow> routine \<Rightarrow> routine list" where
  "routineSave rs r = map (\<lambda>x. if r_id x = r_id r then r else x) rs"

section \<open>Adaptive timing (NotificationScheduler.updateAdaptiveTiming)\<close>

text \<open>
  The switch on \<open>action\<close>. A missing \<open>responseTime\<close> is \<open>undefined\<close> in the source,
  and both \<open>undefined < 30\<close> and \<open>undefined > 120\<close> are false.
\<close>

definition adjustFor :: "string \<Rightarrow> int option \<Rightarrow> int \<Rightarrow> int" where
  "adjustFor act rt adj =
     (if act = ''completed'' then
        (if (case rt of None \<Rightarrow> False | Some t \<Rightarrow> t < 30) then max (- 10) (adj - 1)
         else if (case rt of None \<Rightarrow> False | Some t \<Rightarrow> t > 120) then min 10 (adj + 2)
         else adj)
      else if act = ''dismissed'' then min 15 (adj + 5)
      else if act = ''snoozed'' then min 10 (adj + 3)
      else adj)"

text \<open>
  \<open>routine.adaptiveTiming.adjustment || 0\<close> is the adjustment itself on numbers
  (zero is mapped to zero).
\<close>

definition updateAdaptiveTiming ::
  "routine list \<Rightarrow> oid \<Rightarrow> userResponse \<Rightarrow> date \<Rightarrow> routine list" where
  "updateAdaptiveTiming rs routineId resp now =
     (case routineFindById rs routineId of
        None \<Rightarrow> rs
      | Some r \<Rightarrow>
          if \<not> enabled (r_adaptiveTiming r) then rs
          else routineSave rs
                 (r\<lparr>r_adaptiveTiming := (r_adaptiveTiming r)
                      \<lparr>adjustment :=
                         adjustFor (action resp) (responseTime resp)
                           (adjustment (r_adaptiveTiming r)),
                       lastAdjustment := Some now\<rparr>\<rparr>))"

text \<open>The stores after each of a sequence of updates, oldest first.\<close>

fun updateTrace ::
  "routine list \<Rightarrow> oid \<Rightarrow> (userResponse \<times> date) list \<Rightarrow> routine list list" where
  "updateTrace rs routineId [] = []"
| "updateTrace rs routineId ((resp, now) # evs) =
     updateAdaptiveTiming rs routineId resp now
       # updateTrace (updateAdaptiveTiming rs routineId resp now) routineId evs"

definition offsetInBounds :: "routine list \<Rightarrow> oid \<Rightarrow> bool" where
  "offsetInBounds rs routineId =
     (case routineFindById rs routineId of
        None \<Rightarrow> False
      | Some r \<Rightarrow> - 15 \<le> adjustment (r_adaptiveTiming r)
                  \<and> adjustment (r_adaptiveTiming r) \<le> 15)"

section \<open>Notification store\<close>

text \<open>
  \<open>findOne\<close> is the first match in natural order. \<open>save()\<close> on a new document inserts
  it; the only new document built below has status pending. \<open>save()\<close> on a loaded
  document validates it against the schema and writes it back under its \<open>_id\<close>. The
  one schema rule that a function below can break is the enum of \<open>status\<close>: a
  document whose status is outside the enum is rejected, which is the result \<open>None\<close>,
  and nothing is written. Failures of the store itself are outside the model.
\<close>

definition notificationFindById :: "notification list \<Rightarrow> oid \<Rightarrow> notification option" where
  "notificationFindById ns i = find (\<lambda>n. n_id n = i) ns"

definition notificationInsert :: "notification list \<Rightarrow> notification \<Rightarrow> notification list" where
  "notificationInsert ns n = ns @ [n]"

text \<open>The schema's enum of statuses (models/Notification.js, lines 41 to 46).\<close>

definition statusEnum :: "string list" where
  "statusEnum = [''pending'', ''delivered'', ''completed'', ''dismissed'', ''snoozed'']"

definition writeBack :: "notification list \<Rightarrow> notification \<Rightarrow> notification list" where
  "writeBack ns n = map (\<lambda>x. if n_id x = n_id n then n else x) ns"

definition notificationSave ::
  "notification list \<Rightarrow> notification \<Rightarrow> notification list option" where
  "notificationSave ns n =
     (if n_status n \<in> set statusEnum then Some (writeBack ns n) else None)"

text \<open>A new ObjectId: one that no stored document carries.\<close>

definition freshId :: "notification list \<Rightarrow> oid" where
  "freshId ns = Suc (fold max (map n_id ns) 0)"

text \<open>\<open>notificationSchema.methods.markAsDelivered\<close>, applied to the document.\<close>

definition markAsDelivered :: "notification \<Rightarrow> date \<Rightarrow> notification" where
  "markAsDelivered n now =
     n\<lparr>n_status := ''delivered'', n_deliveredAt := Some now,
       n_deliveryAttempts := n_deliveryAttempts n + 1\<rparr>"

text \<open>\<open>notificationSchema.methods.handleUserResponse\<close>, applied to the document.\<close>

definition handleUserResponse :: "notification \<Rightarrow> string \<Rightarrow> int option \<Rightarrow> date \<Rightarrow> notification" where
  "handleUserResponse n act rt now =
     (let n1 = n\<lparr>n_status := (if act = ''snoozed'' then ''snoozed'' else act),
                  n_userResponse := Some \<lparr>action = act, responseTime = rt, timestamp = now\<rparr>\<rparr>
      in if act = ''completed'' then n1\<lparr>n_completedAt := Some now\<rparr>
         else if act = ''snoozed'' then n1\<lparr>n_snoozedUntil := Some (now + 5 * 60 * 1000)\<rparr>
         else n1)"

section \<open>Transport (socket.io server)\<close>

text \<open>
  Every connected socket has joined the room named after its authenticated user
  (\<open>socket.join(socket.userId)\<close>). \<open>emitted\<close> logs what each socket received. A server
  whose \<open>throws\<close> is set raises on emit.
\<close>

record payload =
  p_id :: oid
  p_title :: string
  p_message :: string
  p_sound :: string
  p_volume :: rat
  p_routineId :: oid
  p_timestamp :: date
  p_type :: string
  p_userId :: "oid option"
  p_broadcast :: bool

record ioServer =
  sockets :: "(nat \<times> oid) list"
  emitted :: "(nat \<times> string \<times> payload) list"
  throws :: bool

definition toRoomEmit :: "ioServer \<Rightarrow> oid \<Rightarrow> string \<Rightarrow> payload \<Rightarrow> ioServer" where
  "toRoomEmit srv room ev d =
     srv\<lparr>emitted := emitted srv
            @ map (\<lambda>s. (fst s, ev, d)) (filter (\<lambda>s. snd s = room) (sockets srv))\<rparr>"

definition emitAll :: "ioServer \<Rightarrow> string \<Rightarrow> payload \<Rightarrow> ioServer" where
  "emitAll srv ev d =
     srv\<lparr>emitted := emitted srv @ map (\<lambda>s. (fst s, ev, d)) (sockets srv)\<rparr>"

text \<open>What the sessions of user \<open>u\<close> have received.\<close>

definition receivedBy :: "ioServer \<Rightarrow> oid \<Rightarrow> (string \<times> payload) list" where
  "receivedBy srv u =
     map snd (filter (\<lambda>m. list_ex (\<lambda>s. fst s = fst m \<and> snd s = u) (sockets srv))
                (emitted srv))"

section \<open>Delivery dispatcher (NotificationScheduler.sendRealTimeNotification)\<close>

text \<open>
  \<open>x || d\<close> on a string or a number: the default replaces the empty string and zero.
\<close>

definition orString :: "string \<Rightarrow> string \<Rightarrow> string" where
  "orString s d = (if s = [] then d else s)"

definition orVolume :: "rat \<Rightarrow> rat \<Rightarrow> rat" where
  "orVolume v d = (if v = 0 then d else v)"

definition notificationData :: "notification \<Rightarrow> routine \<Rightarrow> date \<Rightarrow> payload" where
  "notificationData n r now =
     \<lparr>p_id = n_id n, p_title = r_title r,
      p_message = orString (r_description r) (''Time for '' @ r_title r),
      p_sound = orString (r_sound r) ''chime'',
      p_volume = orVolume (r_volume r) (7 / 10),
      p_routineId = r_id r, p_timestamp = now, p_type = ''alarm'',
      p_userId = None, p_broadcast = False\<rparr>"

text \<open>
  The catch block assigns \<open>status = 'failed'\<close> and counts the attempt on the document
  in memory, then saves it. The enum does not admit \<open>failed\<close>: that save is rejected,
  the stored document stays as it was, and the rejection leaves the function.
\<close>

definition markFailed :: "notification \<Rightarrow> notification" where
  "markFailed n = n\<lparr>n_status := ''failed'', n_deliveryAttempts := n_deliveryAttempts n + 1\<rparr>"

definition catchBlock :: "notification list \<Rightarrow> notification \<Rightarrow> notification list" where
  "catchBlock ns n =
     (case notificationSave ns (markFailed n) of None \<Rightarrow> ns | Some ns' \<Rightarrow> ns')"

text \<open>
  The routine is \<open>None\<close> when the populated reference is null; reading its title then
  raises inside the try block. The result is the transport and the store after the
  call; \<open>sendRejects\<close> tells whether the call ends with the rejection of the catch
  block's save instead of returning.
\<close>

definition sendRealTimeNotification ::
  "ioServer option \<Rightarrow> notification list \<Rightarrow> notification \<Rightarrow> routine option \<Rightarrow> date
     \<Rightarrow> ioServer option \<times> notification list" where
  "sendRealTimeNotification io ns n routine now =
     (case io of
        None \<Rightarrow> (io, ns)
      | Some srv \<Rightarrow>
          (case routine of
             None \<Rightarrow> (io, catchBlock ns n)
           | Some r \<Rightarrow>
               if throws srv then (io, catchBlock ns n)
               else
                 let d = notificationData n r now;
                     srv1 = toRoomEmit srv (r_user r) ''notification'' d;
                     srv2 = emitAll srv1 ''notification-broadcast''
                              (d\<lparr>p_userId := Some (r_user r), p_broadcast := True\<rparr>);
                     n' = n\<lparr>n_status := ''delivered'', n_deliveredAt := Some now\<rparr>
                 in (case notificationSave ns n' of
                       Some ns' \<Rightarrow> (Some srv2, ns')
                     | None \<Rightarrow> (Some srv2, catchBlock ns n'))))"

definition sendRejects ::
  "ioServer option \<Rightarrow> notification list \<Rightarrow> notification \<Rightarrow> routine option \<Rightarrow> date
     \<Rightarrow> bool" where
  "sendRejects io ns n routine now =
     (case io of
        None \<Rightarrow> False
      | Some srv \<Rightarrow>
          (case routine of
             None \<Rightarrow> notificationSave ns (markFailed n) = None
           | Some r \<Rightarrow>
               if throws srv then notificationSave ns (markFailed n) = None
               else
                 (let n' = n\<lparr>n_status := ''delivered'', n_deliveredAt := Some now\<rparr>
                  in notificationSave ns n' = None
                     \<and> notificationSave ns (markFailed n') = None)))"

section \<open>Snooze scan (NotificationScheduler.checkSnoozedNotifications)\<close>

definition snoozedDue :: "date \<Rightarrow> notification \<Rightarrow> bool" where
  "snoozedDue now n =
     (n_status n = ''snoozed''
      \<and> (case n_snoozedUntil n of None \<Rightarrow> False | Some t \<Rightarrow> t \<le> now))"

text \<open>
  The loop over the snoozed notifications that are due. A dispatch that ends with a
  rejection leaves the loop: the scan's own catch block logs it and the scan is over.
\<close>

fun resendAll ::
  "ioServer option \<Rightarrow> notification list \<Rightarrow> routine list \<Rightarrow> notification list \<Rightarrow> date
     \<Rightarrow> ioServer option \<times> notification list" where
  "resendAll io ns rs [] now = (io, ns)"
| "resendAll io ns rs (n # rest) now =
     (case sendRealTimeNotification io ns n (routineFindById rs (n_routine n)) now of
        (io', ns') \<Rightarrow>
          if sendRejects io ns n (routineFindById rs (n_routine n)) now then (io', ns')
          else resendAll io' ns' rs rest now)"

definition checkSnoozedNotifications ::
  "ioServer option \<Rightarrow> notification list \<Rightarrow> routine list \<Rightarrow> date
     \<Rightarrow> ioServer option \<times> notification list" where
  "checkSnoozedNotifications io ns rs now = resendAll io ns rs (filter (snoozedDue now) ns) now"

section \<open>Due scan (checkScheduledRoutines, createAndSendNotification)\<close>

text \<open>
  The server's local time is taken to be UTC; the first of January 1970 was a Thursday
  (day 4). One scan reads the clock once: the source reads it again at each step, and
  the model gives all those reads the scan's instant. The populated owner of a due
  routine is taken to exist.
\<close>

definition getHours :: "date \<Rightarrow> int" where
  "getHours d = (d div 3600000) mod 24"

definition getMinutes :: "date \<Rightarrow> int" where
  "getMinutes d = (d div 60000) mod 60"

definition getDay :: "date \<Rightarrow> int" where
  "getDay d = (d div 86400000 + 4) mod 7"

definition digit :: "int \<Rightarrow> char" where
  "digit k = ''0123456789'' ! nat k"

text \<open>\<open>n.toString().padStart(2, '0')\<close> and \<open>n.toString()\<close>, for \<open>0 \<le> n < 100\<close>.\<close>

definition pad2 :: "int \<Rightarrow> string" where
  "pad2 k = [digit (k div 10), digit (k mod 10)]"

definition toString2 :: "int \<Rightarrow> string" where
  "toString2 k = (if k < 10 then [digit k] else [digit (k div 10), digit (k mod 10)])"

definition currentTime :: "date \<Rightarrow> string" where
  "currentTime now = pad2 (getHours now) @ '':'' @ pad2 (getMinutes now)"

text \<open>
  The query of the scan: an active routine one of whose entries has the time and the
  day, or (second disjunct) some entry of which has the time and some entry the day.
\<close>

definition isDue :: "string \<Rightarrow> int \<Rightarrow> routine \<Rightarrow> bool" where
  "isDue t d r =
     (r_isActive r
      \<and> (list_ex (\<lambda>e. time e = t \<and> d \<in> set (days e)) (r_schedule r)
         \<or> (list_ex (\<lambda>e. time e = t) (r_schedule r)
            \<and> list_ex (\<lambda>e. d \<in> set (days e)) (r_schedule r))))"

definition activeStatuses :: "string list" where
  "activeStatuses = [''pending'', ''delivered'', ''snoozed'']"

text \<open>The duplicate query: no upper bound on \<open>scheduledFor\<close>.\<close>

definition isRecentFor :: "routine \<Rightarrow> date \<Rightarrow> notification \<Rightarrow> bool" where
  "isRecentFor r now n =
     (n_user n = r_user r \<and> n_routine n = r_id r
      \<and> now - 5 * 60 * 1000 \<le> n_scheduledFor n
      \<and> n_status n \<in> set activeStatuses)"

definition adaptiveAdjustmentOf :: "routine \<Rightarrow> int" where
  "adaptiveAdjustmentOf r =
     (if enabled (r_adaptiveTiming r) \<and> adjustment (r_adaptiveTiming r) \<noteq> 0
      then adjustment (r_adaptiveTiming r) else 0)"

definition newNotification :: "oid \<Rightarrow> routine \<Rightarrow> date \<Rightarrow> notification" where
  "newNotification i r scheduledTime =
     \<lparr>n_id = i, n_user = r_user r, n_routine = r_id r, n_title = r_title r,
      n_message = orString (r_description r) (''Time for '' @ r_title r),
      n_type = ''alarm'',
      n_sound = orString (r_sound r) ''chime'',
      n_volume = orVolume (r_volume r) (7 / 10),
      n_status = ''pending'', n_userResponse = None, n_deliveryAttempts = 0,
      n_scheduledFor = scheduledTime + adaptiveAdjustmentOf r * 60 * 1000,
      n_deliveredAt = None, n_completedAt = None, n_snoozedUntil = None,
      n_metadata = \<lparr>originalSchedule =
                      toString2 (getHours scheduledTime) @ '':''
                        @ pad2 (getMinutes scheduledTime),
                    adaptiveAdjustment = adaptiveAdjustmentOf r\<rparr>\<rparr>"

text \<open>
  The function has its own try and catch: a dispatch that ends with a rejection is
  logged there and the function returns, so the loop over the due routines goes on.
\<close>

definition createAndSendNotification ::
  "ioServer option \<Rightarrow> notification list \<Rightarrow> routine \<Rightarrow> date \<Rightarrow> date
     \<Rightarrow> ioServer option \<times> notification list" where
  "createAndSendNotification io ns r scheduledTime now =
     (case find (isRecentFor r now) ns of
        Some existing \<Rightarrow> (io, ns)
      | None \<Rightarrow>
          (let n = newNotification (freshId ns) r scheduledTime
           in sendRealTimeNotification io (notificationInsert ns n) n (Some r) now))"

fun processRoutines ::
  "ioServer option \<Rightarrow> notification list \<Rightarrow> routine list \<Rightarrow> date
     \<Rightarrow> ioServer option \<times> notification list" where
  "processRoutines io ns [] now = (io, ns)"
| "processRoutines io ns (r # rest) now =
     (case createAndSendNotification io ns r now now of
        (io', ns') \<Rightarrow> processRoutines io' ns' rest now)"

definition checkScheduledRoutines ::
  "ioServer option \<Rightarrow> notification list \<Rightarrow> routine list \<Rightarrow> date
     \<Rightarrow> ioServer option \<times> notification list" where
  "checkScheduledRoutines io ns rs now =
     processRoutines io ns (filter (isDue (currentTime now) (getDay now)) rs) now"

text \<open>The stored notifications of one routine.\<close>

definition notificationsOf :: "oid \<Rightarrow> notification list \<Rightarrow> notification list" where
  "notificationsOf k ns = filter (\<lambda>n. n_routine n = k) ns"

section \<open>Routine toggling (routes/routines.js) and rescheduling\<close>

definition scheduleRoutineNotifications :: "notification list \<Rightarrow> routine \<Rightarrow> notification list" where
  "scheduleRoutineNotifications ns r =
     (if \<not> r_isActive r then ns
      else filter (\<lambda>n. \<not> (n_routine n = r_id r
                            \<and> n_status n \<in> set [''pending'', ''snoozed''])) ns)"

text \<open>
  Defined by the scheduler; no route and no handler calls it. It is an \<open>updateMany\<close>,
  which writes without validating.
\<close>

definition cancelRoutineNotifications :: "notification list \<Rightarrow> oid \<Rightarrow> notification list" where
  "cancelRoutineNotifications ns routineId =
     map (\<lambda>n. if n_routine n = routineId \<and> n_status n \<in> set [''pending'', ''snoozed'']
               then n\<lparr>n_status := ''cancelled''\<rparr> else n) ns"

datatype outcome = Success | NotFound | Conflict | InvalidArgument | ServerError

definition toggle ::
  "routine list \<Rightarrow> notification list \<Rightarrow> oid \<Rightarrow> oid
     \<Rightarrow> outcome \<times> routine list \<times> notification list" where
  "toggle rs ns routineId userId =
     (case find (\<lambda>r. r_id r = routineId \<and> r_user r = userId) rs of
        None \<Rightarrow> (NotFound, rs, ns)
      | Some r \<Rightarrow>
          (let r' = r\<lparr>r_isActive := \<not> r_isActive r\<rparr>
           in (Success, routineSave rs r', scheduleRoutineNotifications ns r')))"

section \<open>Response processing over HTTP (routes/notifications.js, POST /:id/response)\<close>

text \<open>
  The outcomes are the HTTP statuses 200, 404, 409, 400 and 500. The best-effort
  metrics update and the \<open>notification-updated\<close> push do not touch the two stores and
  are left out. A rejected save raises inside the try block: the transaction is
  aborted, nothing is stored, and the answer is 500.
\<close>

text \<open>
  A numeric field of the request body: \<open>None\<close> when the field is absent, \<open>Some None\<close>
  when it is the JSON \<open>null\<close>, \<open>Some (Some m)\<close> when it is the number \<open>m\<close>.
  \<open>responseTime\<close> is a number or absent.
\<close>

type_synonym bodyNumber = "int option option"

text \<open>
  \<open>const { snoozeMinutes = 5 } = req.body\<close>: the default replaces an absent field
  only; \<open>null * 60 * 1000\<close> is zero.
\<close>

definition snoozeMinutesOf :: "bodyNumber \<Rightarrow> int" where
  "snoozeMinutesOf sm = (case sm of None \<Rightarrow> 5 | Some None \<Rightarrow> 0 | Some (Some m) \<Rightarrow> m)"

definition validActions :: "string list" where
  "validActions = [''completed'', ''snoozed'', ''dismissed'']"

definition lockFree :: "oid \<Rightarrow> oid \<Rightarrow> notification \<Rightarrow> bool" where
  "lockFree i u n =
     (n_id n = i \<and> n_user n = u \<and> (processing n = None \<or> processing n = Some False))"

definition ownedBy :: "oid \<Rightarrow> oid \<Rightarrow> notification \<Rightarrow> bool" where
  "ownedBy i u n = (n_id n = i \<and> n_user n = u)"

definition applyAction :: "notification \<Rightarrow> string \<Rightarrow> bodyNumber \<Rightarrow> date \<Rightarrow> notification" where
  "applyAction n act sm now =
     (if act = ''completed'' then n\<lparr>n_completedAt := Some now\<rparr>
      else if act = ''dismissed'' then n
      else if act = ''snoozed'' then
        n\<lparr>n_snoozedUntil := Some (now + snoozeMinutesOf sm * 60 * 1000)\<rparr>
      else n)"

text \<open>
  The two assignments to \<open>processing\<close> change nothing that a save writes: the first
  save writes the document back as it was loaded, the second with the transition
  applied.
\<close>

definition respond ::
  "notification list \<Rightarrow> routine list \<Rightarrow> oid \<Rightarrow> oid \<Rightarrow> string \<Rightarrow> int option \<Rightarrow> bodyNumber
     \<Rightarrow> date \<Rightarrow> outcome \<times> notification list \<times> routine list" where
  "respond ns rs i u act rt sm now =
     (case find (lockFree i u) ns of
        None \<Rightarrow>
          (case find (ownedBy i u) ns of
             None \<Rightarrow> (NotFound, ns, rs)
           | Some existing \<Rightarrow>
               if processing existing = Some True then (Conflict, ns, rs)
               else (NotFound, ns, rs))
      | Some n \<Rightarrow>
          if act \<notin> set validActions then (InvalidArgument, ns, rs)
          else
            (case notificationSave ns n of
               None \<Rightarrow> (ServerError, ns, rs)
             | Some ns1 \<Rightarrow>
                 (let resp = \<lparr>action = act,
                              responseTime = Some (case rt of None \<Rightarrow> 0 | Some t \<Rightarrow> t),
                              timestamp = now\<rparr>;
                      n2 = n\<lparr>n_status := act, n_userResponse := Some resp\<rparr>;
                      n3 = applyAction n2 act sm now
                  in (case notificationSave ns1 n3 of
                        None \<Rightarrow> (ServerError, ns, rs)
                      | Some ns2 \<Rightarrow>
                          (Success, ns2,
                           (case routineFindById rs (n_routine n) of
                              None \<Rightarrow> rs
                            | Some r \<Rightarrow>
                                if enabled (r_adaptiveTiming r)
                                then updateAdaptiveTiming rs (r_id r) resp now
                                else rs))))))"

section \<open>Response processing over the socket (notification-response handler)\<close>

text \<open>
  The handler answers an error with an \<open>error\<close> event carrying a message. A rejected
  save raises inside its try block, and the catch block answers
  \<open>Failed to process notification response\<close>; nothing is stored and the adaptive
  timing is not updated. The metrics update it awaits is taken to succeed.
\<close>

datatype socketReply = Updated | SocketError string

text \<open>
  The snooze branch is taken when the action is snoozed and \<open>snoozeMinutes\<close> is truthy:
  a number other than zero.
\<close>

definition snoozeArg :: "string \<Rightarrow> bodyNumber \<Rightarrow> int option" where
  "snoozeArg act sm =
     (case sm of
        None \<Rightarrow> None
      | Some None \<Rightarrow> None
      | Some (Some m) \<Rightarrow> if act = ''snoozed'' \<and> m \<noteq> 0 then Some m else None)"

definition socketTransition ::
  "notification \<Rightarrow> string \<Rightarrow> int option \<Rightarrow> bodyNumber \<Rightarrow> date \<Rightarrow> notification" where
  "socketTransition n act rt sm now =
     (case snoozeArg act sm of
        Some m \<Rightarrow>
          n\<lparr>n_status := ''snoozed'',
            n_snoozedUntil := Some (now + m * 60 * 1000),
            n_userResponse :=
              Some \<lparr>action = ''snoozed'', responseTime = rt, timestamp = now\<rparr>\<rparr>
      | None \<Rightarrow>
          (let m = n\<lparr>n_status := act,
                     n_userResponse :=
                       Some \<lparr>action = act, responseTime = rt, timestamp = now\<rparr>\<rparr>
           in if act = ''completed'' then m\<lparr>n_completedAt := Some now\<rparr> else m))"

definition socketNotificationResponse ::
  "notification list \<Rightarrow> routine list \<Rightarrow> oid \<Rightarrow> oid \<Rightarrow> string \<Rightarrow> int option \<Rightarrow> bodyNumber
     \<Rightarrow> date \<Rightarrow> socketReply \<times> notification list \<times> routine list" where
  "socketNotificationResponse ns rs socketUserId notificationId act rt sm now =
     (case notificationFindById ns notificationId of
        None \<Rightarrow> (SocketError ''Notification not found'', ns, rs)
      | Some n \<Rightarrow>
          if n_user n \<noteq> socketUserId then (SocketError ''Unauthorized'', ns, rs)
          else
            (let n' = socketTransition n act rt sm now
             in (case notificationSave ns n' of
                   None \<Rightarrow> (SocketError ''Failed to process notification response'', ns, rs)
                 | Some ns' \<Rightarrow>
                     (Updated, ns',
                      (case n_userResponse n' of
                         None \<Rightarrow> rs
                       | Some resp \<Rightarrow> updateAdaptiveTiming rs (n_routine n) resp now)))))"

section \<open>Scheduler lifecycle (start, stop, getStatus)\<close>

text \<open>
  \<open>cron.schedule\<close> registers a task with the process-wide cron runner and
  \<open>setTimeout\<close> a one-shot timer; \<open>start\<close> keeps no handle on either.
\<close>

datatype job = CheckScheduledRoutines | CheckSnoozedNotifications | CleanupOldNotifications
  | TestScheduler

record scheduler =
  isRunning :: bool
  cronTasks :: "(string \<times> job) list"
  timeouts :: "(nat \<times> job) list"

definition newScheduler :: "(string \<times> job) list \<Rightarrow> (nat \<times> job) list \<Rightarrow> scheduler" where
  "newScheduler registered timers =
     \<lparr>isRunning = False, cronTasks = registered, timeouts = timers\<rparr>"

definition startTasks :: "(string \<times> job) list" where
  "startTasks = [(''* * * * *'', CheckScheduledRoutines),
                 (''*/30 * * * * *'', CheckSnoozedNotifications),
                 (''0 0 * * *'', CleanupOldNotifications)]"

definition start :: "scheduler \<Rightarrow> scheduler" where
  "start s =
     (if isRunning s then s
      else s\<lparr>cronTasks := cronTasks s @ startTasks,
             timeouts := timeouts s @ [(5000, TestScheduler)],
             isRunning := True\<rparr>)"

definition stop :: "scheduler \<Rightarrow> scheduler" where
  "stop s = s\<lparr>isRunning := False\<rparr>"

record status =
  st_isRunning :: bool
  st_lastChecked :: date
  st_activeCronJobs :: nat

definition getStatus :: "scheduler \<Rightarrow> date \<Rightarrow> status" where
  "getStatus s now = \<lparr>st_isRunning = isRunning s, st_lastChecked = now, st_activeCronJobs = 3\<rparr>"

text \<open>
  The jobs the cron runner executes when the pattern \<open>expr\<close> fires: every registered
  task with that pattern; no callback looks at \<open>isRunning\<close>.
\<close>

definition cronFire :: "scheduler \<Rightarrow> string \<Rightarrow> job list" where
  "cronFire s expr = map snd (filter (\<lambda>t. fst t = expr) (cronTasks s))"

section \<open>The rule table of the specification\<close>

text \<open>
  Following the spec's words (section 4.7), for comparison with \<open>adjustFor\<close>: the
  offset moves by the table's amount and is then clamped to \<open>[-15, +15]\<close>.
\<close>

definition spec_delta :: "string \<Rightarrow> int \<Rightarrow> int" where
  "spec_delta act t =
     (if act = ''completed'' \<and> t < 30 then - 1
      else if act = ''completed'' \<and> t > 120 then 2
      else if act = ''dismissed'' then 5
      else if act = ''snoozed'' then 3
      else 0)"

definition spec_offset :: "string \<Rightarrow> int \<Rightarrow> int \<Rightarrow> int" where
  "spec_offset act t off = max (- 15) (min 15 (off + spec_delta act t))"

section \<open>Scenario data\<close>

text \<open>
  The routine of the spec's scenarios: one entry at 09:00 on Mondays, owned by user 7.
  \<open>mondayNine\<close> is Monday 5 January 1970, 09:00 UTC.
\<close>

definition mondayNine :: date where
  "mondayNine = 378000000"

definition routineA :: routine where
  "routineA =
     \<lparr>r_id = 1, r_user = 7, r_title = ''Stretch'', r_description = ''Stand up'',
      r_schedule = [\<lparr>time = ''09:00'', days = [1]\<rparr>],
      r_sound = ''bell'', r_volume = 1 / 2, r_isActive = True,
      r_adaptiveTiming = \<lparr>enabled = True, adjustment = 0, lastAdjustment = None\<rparr>\<rparr>"

definition withAdjustment :: "routine \<Rightarrow> int \<Rightarrow> routine" where
  "withAdjustment r a = r\<lparr>r_adaptiveTiming := (r_adaptiveTiming r)\<lparr>adjustment := a\<rparr>\<rparr>"

text \<open>The notification the factory creates for \<open>routineA\<close> at \<open>mondayNine\<close>, under id 1.\<close>

definition pendingA :: notification where
  "pendingA =
     \<lparr>n_id = 1, n_user = 7, n_routine = 1, n_title = ''Stretch'', n_message = ''Stand up'',
      n_type = ''alarm'', n_sound = ''bell'', n_volume = 1 / 2, n_status = ''pending'',
      n_userResponse = None, n_deliveryAttempts = 0, n_scheduledFor = 378000000,
      n_deliveredAt = None, n_completedAt = None, n_snoozedUntil = None,
      n_metadata = \<lparr>originalSchedule = ''9:00'', adaptiveAdjustment = 0\<rparr>\<rparr>"

definition deliveredA :: notification where
  "deliveredA = pendingA\<lparr>n_status := ''delivered'', n_deliveredAt := Some 378000000\<rparr>"


text \<open>A second notification of the routine, snoozed until 09:05.\<close>

definition snoozedA :: notification where
  "snoozedA =
     deliveredA\<lparr>n_id := 2, n_status := ''snoozed'', n_snoozedUntil := Some 378300000\<rparr>"

text \<open>Two connected sessions: socket 1 of user 7 and socket 2 of user 8.\<close>

definition serverTwo :: ioServer where
  "serverTwo = \<lparr>sockets = [(1, 7), (2, 8)], emitted = [], throws = False\<rparr>"

section \<open>Store lemmas\<close>

lemma routine_find_id:
  "find (\<lambda>r. r_id r = i) rs = Some r \<Longrightarrow> r_id r = i"
  by (induction rs) (auto split: if_splits)

lemma routineFindById_save:
  assumes "routineFindById rs i = Some r" and "r_id r' = i"
  shows "routineFindById (routineSave rs r') i = Some r'"
  using assms unfolding routineFindById_def routineSave_def
  by (induction rs) (auto split: if_splits)

section \<open>Adaptive timing\<close>

lemma if_chain_cases:
  "(if a then (if b then x1 else if c then x2 else x5)
    else if d then x3 else if e then x4 else x5) \<in> {x1, x2, x3, x4, x5}"
  by simp

lemma if_chain_flat:
  assumes "a \<Longrightarrow> \<not> d" and "a \<Longrightarrow> \<not> e"
  shows "(if a then (if b then x1 else if c then x2 else x5)
          else if d then x3 else if e then x4 else x5)
       = (if a \<and> b then x1 else if a \<and> c then x2
          else if d then x3 else if e then x4 else x5)"
  using assms by auto

lemma adjustFor_cases:
  "adjustFor act rt adj \<in> {max (- 10) (adj - 1), min 10 (adj + 2), min 15 (adj + 5),
      min 10 (adj + 3), adj}"
  unfolding adjustFor_def by (rule if_chain_cases)

lemma adjustFor_bounds:
  assumes "- 15 \<le> adj" and "adj \<le> 15"
  shows "- 15 \<le> adjustFor act rt adj \<and> adjustFor act rt adj \<le> 15"
proof -
  have "adjustFor act rt adj = max (- 10) (adj - 1) \<or> adjustFor act rt adj = min 10 (adj + 2)
      \<or> adjustFor act rt adj = min 15 (adj + 5) \<or> adjustFor act rt adj = min 10 (adj + 3)
      \<or> adjustFor act rt adj = adj"
    using adjustFor_cases [of act rt adj] by blast
  with assms show ?thesis by linarith
qed

lemma adjustFor_table:
  "adjustFor act (Some t) a =
     (if act = ''completed'' \<and> t < 30 then max (- 10) (a - 1)
      else if act = ''completed'' \<and> t > 120 then min 10 (a + 2)
      else if act = ''dismissed'' then min 15 (a + 5)
      else if act = ''snoozed'' then min 10 (a + 3)
      else a)"
  unfolding adjustFor_def option.case
  by (rule if_chain_flat) simp_all

lemma updateAdaptiveTiming_enabled:
  assumes "routineFindById rs i = Some r" and "enabled (r_adaptiveTiming r)"
  shows "routineFindById (updateAdaptiveTiming rs i resp now) i =
           Some (r\<lparr>r_adaptiveTiming := (r_adaptiveTiming r)
                     \<lparr>adjustment := adjustFor (action resp) (responseTime resp)
                                      (adjustment (r_adaptiveTiming r)),
                      lastAdjustment := Some now\<rparr>\<rparr>)"
proof -
  have rid: "r_id r = i"
    using assms(1) routine_find_id unfolding routineFindById_def by blast
  show ?thesis
    using assms by (simp add: updateAdaptiveTiming_def routineFindById_save rid)
qed

lemma updateAdaptiveTiming_bounds:
  assumes "offsetInBounds rs i"
  shows "offsetInBounds (updateAdaptiveTiming rs i resp now) i"
proof (cases "routineFindById rs i")
  case None
  with assms show ?thesis by (simp add: offsetInBounds_def)
next
  case (Some r)
  show ?thesis
  proof (cases "enabled (r_adaptiveTiming r)")
    case False
    with Some assms show ?thesis by (simp add: updateAdaptiveTiming_def)
  next
    case True
    have "- 15 \<le> adjustment (r_adaptiveTiming r) \<and> adjustment (r_adaptiveTiming r) \<le> 15"
      using assms Some by (simp add: offsetInBounds_def)
    then have "- 15 \<le> adjustFor (action resp) (responseTime resp) (adjustment (r_adaptiveTiming r))
             \<and> adjustFor (action resp) (responseTime resp) (adjustment (r_adaptiveTiming r)) \<le> 15"
      using adjustFor_bounds by blast
    then show ?thesis
      unfolding offsetInBounds_def updateAdaptiveTiming_enabled [OF Some True] by simp
  qed
qed

text \<open>
  C2 (as amended). For a stored routine with adaptive timing enabled, one update
  replaces the adjustment \<open>a\<close> by \<open>max (-10) (a - 1)\<close> on a completion under 30
  seconds, by \<open>min 10 (a + 2)\<close> on a completion over 120 seconds, by
  \<open>min 15 (a + 5)\<close> on a dismissal and by \<open>min 10 (a + 3)\<close> on a snooze, leaves it
  unchanged otherwise, and sets \<open>lastAdjustment\<close> to the time of the update.
\<close>

theorem updateAdaptiveTiming_rule_table:
  assumes "routineFindById rs i = Some r"
    and "enabled (r_adaptiveTiming r)"
    and "responseTime resp = Some t"
  shows "\<exists>r'. routineFindById (updateAdaptiveTiming rs i resp now) i = Some r'
           \<and> lastAdjustment (r_adaptiveTiming r') = Some now
           \<and> adjustment (r_adaptiveTiming r') =
               (if action resp = ''completed'' \<and> t < 30
                  then max (- 10) (adjustment (r_adaptiveTiming r) - 1)
                else if action resp = ''completed'' \<and> t > 120
                  then min 10 (adjustment (r_adaptiveTiming r) + 2)
                else if action resp = ''dismissed''
                  then min 15 (adjustment (r_adaptiveTiming r) + 5)
                else if action resp = ''snoozed''
                  then min 10 (adjustment (r_adaptiveTiming r) + 3)
                else adjustment (r_adaptiveTiming r))"
  unfolding updateAdaptiveTiming_enabled [OF assms(1,2)] assms(3)
  by (simp only: adjustFor_table [symmetric] option.inject simp_thms ex_simps
        routine.simps adaptiveTiming.simps) simp

theorem updateAdaptiveTiming_rule_table_witness:
  "routineFindById [withAdjustment routineA 9] 1 = Some (withAdjustment routineA 9)
   \<and> enabled (r_adaptiveTiming (withAdjustment routineA 9))
   \<and> (\<exists>r'. routineFindById
               (updateAdaptiveTiming [withAdjustment routineA 9] 1
                  \<lparr>action = ''completed'', responseTime = Some 200, timestamp = 5\<rparr> 5) 1 = Some r'
           \<and> lastAdjustment (r_adaptiveTiming r') = Some 5
           \<and> adjustment (r_adaptiveTiming r') = 10)"
proof -
  have f: "routineFindById [withAdjustment routineA 9] 1 = Some (withAdjustment routineA 9)"
    by (simp add: routineFindById_def withAdjustment_def routineA_def)
  have e: "enabled (r_adaptiveTiming (withAdjustment routineA 9))"
    by (simp add: withAdjustment_def routineA_def)
  have a: "adjustment (r_adaptiveTiming (withAdjustment routineA 9)) = 9"
    by (simp add: withAdjustment_def)
  show ?thesis
    using updateAdaptiveTiming_rule_table [OF f e,
        of "\<lparr>action = ''completed'', responseTime = Some 200, timestamp = 5\<rparr>" 200 5] f e
    by (simp add: a)
qed

text \<open>
  C2, counterexample. A routine at the floor of the spec's clamp, adjustment -15,
  answered by a completion after 15 seconds: the code stores -10, where the claim
  keeps -15.
\<close>

theorem updateAdaptiveTiming_floor_counterexample:
  "map (\<lambda>r. adjustment (r_adaptiveTiming r))
     (updateAdaptiveTiming [withAdjustment routineA (- 15)] 1
        \<lparr>action = ''completed'', responseTime = Some 15, timestamp = 5\<rparr> 5) = [- 10]
   \<and> spec_offset ''completed'' 15 (- 15) = - 15"
  by (simp add: updateAdaptiveTiming_def routineFindById_def routineSave_def
        withAdjustment_def routineA_def adjustFor_def spec_offset_def spec_delta_def)

text \<open>
  C3. If the routine is stored with an adjustment within \<open>[-15, +15]\<close>, then after
  every update of every sequence of responses (any action string, any response time,
  present or not) its stored adjustment is within \<open>[-15, +15]\<close>.
\<close>

theorem offset_stays_in_bounds:
  assumes "offsetInBounds rs i"
  shows "\<forall>st \<in> set (updateTrace rs i evs). offsetInBounds st i"
  using assms
proof (induction rs i evs rule: updateTrace.induct)
  case (1 rs routineId)
  then show ?case by simp
next
  case (2 rs routineId resp now evs)
  have step: "offsetInBounds (updateAdaptiveTiming rs routineId resp now) routineId"
    using "2.prems" by (rule updateAdaptiveTiming_bounds)
  from "2.IH" [OF step] step show ?case by simp
qed

theorem offset_stays_in_bounds_witness:
  "offsetInBounds [routineA] 1
   \<and> list_all (\<lambda>st. offsetInBounds st 1)
        (updateTrace [routineA] 1
         [(\<lparr>action = ''dismissed'', responseTime = Some 200, timestamp = 1\<rparr>, 1),
          (\<lparr>action = ''dismissed'', responseTime = Some 90, timestamp = 2\<rparr>, 2),
          (\<lparr>action = ''dismissed'', responseTime = None, timestamp = 3\<rparr>, 3),
          (\<lparr>action = ''dismissed'', responseTime = Some 10, timestamp = 4\<rparr>, 4),
          (\<lparr>action = ''snoozed'', responseTime = Some 12, timestamp = 5\<rparr>, 5),
          (\<lparr>action = ''completed'', responseTime = Some 15, timestamp = 6\<rparr>, 6)])"
proof -
  have h: "offsetInBounds [routineA] 1"
    by (simp add: offsetInBounds_def routineFindById_def routineA_def)
  show ?thesis using h offset_stays_in_bounds [OF h] unfolding list_all_iff by blast
qed

section \<open>Scheduler lifecycle\<close>

text \<open>
  C10. After \<open>start\<close> and then \<open>stop\<close> on a new scheduler, \<open>getStatus\<close> reports
  \<open>isRunning\<close> false; the three cron tasks that \<open>start\<close> registered are still
  registered and still run when their patterns fire; a later \<open>start\<close> registers the
  three tasks a second time.
\<close>

theorem stop_leaves_cron_tasks:
  "\<not> st_isRunning (getStatus (stop (start (newScheduler reg tm))) now)
   \<and> cronTasks (stop (start (newScheduler reg tm))) = reg @ startTasks
   \<and> cronFire (stop (start (newScheduler [] tm))) ''* * * * *'' = [CheckScheduledRoutines]
   \<and> cronFire (stop (start (newScheduler [] tm))) ''*/30 * * * * *''
       = [CheckSnoozedNotifications]
   \<and> cronFire (stop (start (newScheduler [] tm))) ''0 0 * * *'' = [CleanupOldNotifications]
   \<and> cronTasks (start (stop (start (newScheduler reg tm)))) = reg @ startTasks @ startTasks
   \<and> cronFire (start (stop (start (newScheduler [] tm)))) ''* * * * *''
       = [CheckScheduledRoutines, CheckScheduledRoutines]"
  by (simp add: getStatus_def stop_def start_def newScheduler_def cronFire_def startTasks_def)

section \<open>Response processing\<close>

lemma valid_in_enum:
  "act \<in> set validActions \<Longrightarrow> act \<in> set statusEnum"
  by (auto simp: validActions_def statusEnum_def)

lemma notificationFindById_writeBack:
  assumes "m \<in> set ns" and "n_id m = n_id n'"
  shows "notificationFindById (writeBack ns n') (n_id n') = Some n'"
  using assms unfolding notificationFindById_def writeBack_def
  by (induction ns) auto

lemma writeBack_twice:
  "n_id a = n_id b \<Longrightarrow> writeBack (writeBack ns a) b = writeBack ns b"
  unfolding writeBack_def by (induction ns) auto

lemma lockFree_ownedBy:
  "lockFree i u = ownedBy i u"
  by (rule ext) (simp add: lockFree_def ownedBy_def processing_def)

lemma applyAction_same [simp]:
  "n_id (applyAction n act sm now) = n_id n"
  "n_status (applyAction n act sm now) = n_status n"
  "n_userResponse (applyAction n act sm now) = n_userResponse n"
  "n_deliveredAt (applyAction n act sm now) = n_deliveredAt n"
  by (simp_all add: applyAction_def)

lemma applyAction_completedAt:
  "n_completedAt (applyAction n act sm now) =
     (if act = ''completed'' then Some now else n_completedAt n)"
  by (simp add: applyAction_def)

lemma applyAction_snoozedUntil:
  "n_snoozedUntil (applyAction n act sm now) =
     (if act = ''snoozed'' then Some (now + snoozeMinutesOf sm * 60 * 1000)
      else n_snoozedUntil n)"
  by (simp add: applyAction_def)

lemma respond_accepted:
  assumes "find (ownedBy i u) ns = Some n" and "n_status n \<in> set statusEnum"
    and "act \<in> set validActions"
  shows "fst (respond ns rs i u act rt sm now) = Success"
    and "fst (snd (respond ns rs i u act rt sm now)) =
           writeBack ns
             (applyAction
                (n\<lparr>n_status := act,
                   n_userResponse :=
                     Some \<lparr>action = act,
                           responseTime = Some (case rt of None \<Rightarrow> 0 | Some t \<Rightarrow> t),
                           timestamp = now\<rparr>\<rparr>) act sm now)"
  using assms valid_in_enum [OF assms(3)]
  by (simp_all add: respond_def lockFree_ownedBy notificationSave_def writeBack_twice Let_def)

lemma respond_Success_iff:
  "(fst (respond ns rs i u act rt sm now) = Success)
     = ((\<exists>n. find (ownedBy i u) ns = Some n \<and> n_status n \<in> set statusEnum)
        \<and> act \<in> set validActions)"
proof (cases "act \<in> set validActions")
  case True
  then have "act \<in> set statusEnum" by (rule valid_in_enum)
  with True show ?thesis
    by (simp add: respond_def lockFree_ownedBy notificationSave_def Let_def
          split: option.splits)
next
  case False
  then show ?thesis
    by (simp add: respond_def lockFree_ownedBy split: option.splits)
qed


lemma find_ownedBy_member:
  assumes "find (ownedBy i u) ns = Some n"
  shows "n \<in> set ns \<and> n_id n = i \<and> n_user n = u"
  using assms by (auto simp: find_Some_iff ownedBy_def)

lemma respond_stored:
  assumes "find (ownedBy i u) ns = Some n" and "n_status n \<in> set statusEnum"
    and "act \<in> set validActions"
  shows "notificationFindById (fst (snd (respond ns rs i u act rt sm now))) i =
           Some (applyAction
                   (n\<lparr>n_status := act,
                      n_userResponse :=
                        Some \<lparr>action = act,
                              responseTime = Some (case rt of None \<Rightarrow> 0 | Some t \<Rightarrow> t),
                              timestamp = now\<rparr>\<rparr>) act sm now)"
proof -
  let ?n' = "applyAction
               (n\<lparr>n_status := act,
                  n_userResponse :=
                    Some \<lparr>action = act,
                          responseTime = Some (case rt of None \<Rightarrow> 0 | Some t \<Rightarrow> t),
                          timestamp = now\<rparr>\<rparr>) act sm now"
  have mem: "n \<in> set ns" and nid: "n_id n = i"
    using find_ownedBy_member [OF assms(1)] by simp_all
  have id': "n_id ?n' = i" using nid by simp
  have "notificationFindById (writeBack ns ?n') (n_id ?n') = Some ?n'"
    by (rule notificationFindById_writeBack [OF mem]) (simp add: nid)
  then show ?thesis
    unfolding respond_accepted(2) [OF assms] id' .
qed






text \<open>
  What the HTTP route stores on an accepted call: the action as status,
  \<open>userResponse = {action, responseTime || 0, timestamp: now}\<close>, \<open>completedAt = now\<close>
  on completed and otherwise as before, \<open>snoozedUntil\<close> equal to \<open>now\<close> plus
  \<open>snoozeMinutes\<close> minutes (5 when absent) on snoozed and otherwise as before, and
  \<open>deliveredAt\<close> as before.
\<close>

lemma respond_applies_transition:
  assumes "fst (respond ns rs i u act rt sm now) = Success"
  shows "\<exists>n n'. find (ownedBy i u) ns = Some n
           \<and> notificationFindById (fst (snd (respond ns rs i u act rt sm now))) i = Some n'
           \<and> n_status n' = act
           \<and> n_userResponse n' =
               Some \<lparr>action = act,
                     responseTime = Some (case rt of None \<Rightarrow> 0 | Some t \<Rightarrow> t),
                     timestamp = now\<rparr>
           \<and> n_completedAt n' = (if act = ''completed'' then Some now else n_completedAt n)
           \<and> n_snoozedUntil n' =
               (if act = ''snoozed''
                then Some (now + (case sm of None \<Rightarrow> 5 | Some None \<Rightarrow> 0 | Some (Some m) \<Rightarrow> m)
                                   * 60 * 1000)
                else n_snoozedUntil n)
           \<and> n_deliveredAt n' = n_deliveredAt n"
proof -
  from assms obtain n where f: "find (ownedBy i u) ns = Some n"
    and e: "n_status n \<in> set statusEnum" and a: "act \<in> set validActions"
    unfolding respond_Success_iff by blast
  show ?thesis
    unfolding respond_stored [OF f e a] f
    by (simp add: applyAction_completedAt applyAction_snoozedUntil snoozeMinutesOf_def)
qed

text \<open>
  C9, the failing input (the spec's scenario B without \<open>snoozeMinutes\<close>). The
  delivered notification is snoozed by its owner over the socket with no
  \<open>snoozeMinutes\<close>, or with 0: the call is accepted and the status stored is snoozed,
  but no \<open>snoozedUntil\<close> is set, so no later snooze scan finds the notification due.
  The same call over HTTP, like \<open>handleUserResponse\<close> of the model, sets
  \<open>snoozedUntil\<close> five minutes ahead.
\<close>

theorem socket_snooze_sets_no_wake_time:
  "fst (socketNotificationResponse [deliveredA] [routineA] 7 1 ''snoozed'' (Some 12) None
          378012000) = Updated
   \<and> map (\<lambda>n. (n_status n, n_snoozedUntil n))
       (fst (snd (socketNotificationResponse [deliveredA] [routineA] 7 1 ''snoozed'' (Some 12)
                    None 378012000))) = [(''snoozed'', None)]
   \<and> map (\<lambda>n. (n_status n, n_snoozedUntil n))
       (fst (snd (socketNotificationResponse [deliveredA] [routineA] 7 1 ''snoozed'' (Some 12)
                    (Some (Some 0)) 378012000))) = [(''snoozed'', None)]
   \<and> filter (snoozedDue 999999999)
       (fst (snd (socketNotificationResponse [deliveredA] [routineA] 7 1 ''snoozed'' (Some 12)
                    None 378012000))) = []
   \<and> map (\<lambda>n. (n_status n, n_snoozedUntil n))
       (fst (snd (respond [deliveredA] [routineA] 1 7 ''snoozed'' (Some 12) None 378012000)))
     = [(''snoozed'', Some 378312000)]
   \<and> n_snoozedUntil (handleUserResponse deliveredA ''snoozed'' (Some 12) 378012000)
     = Some 378312000"
  by (simp add: socketNotificationResponse_def socketTransition_def respond_def lockFree_def
        ownedBy_def processing_def validActions_def statusEnum_def notificationSave_def
        writeBack_def
        notificationFindById_def applyAction_def snoozeArg_def snoozeMinutesOf_def
        snoozedDue_def handleUserResponse_def Let_def deliveredA_def pendingA_def)

text \<open>
  The HTTP route answers a caller who does not own the notification exactly as it
  answers for a notification that does not exist.
\<close>

lemma respond_foreign_NotFound:
  assumes "\<forall>n \<in> set ns. n_id n = i \<longrightarrow> n_user n \<noteq> u"
  shows "respond ns rs i u act rt sm now = (NotFound, ns, rs)"
proof -
  have "find (ownedBy i u) ns = None"
    using assms by (auto simp: find_None_iff ownedBy_def)
  then show ?thesis by (simp add: respond_def lockFree_ownedBy)
qed

text \<open>
  C8, the failing input. Notification 1 belongs to user 7. User 8 answers it over the
  socket and is told \<open>Unauthorized\<close>, while for the absent notification 2 the same
  handler says \<open>Notification not found\<close>; the HTTP route says NotFound both times.
\<close>

theorem socket_response_reveals_existence:
  "fst (socketNotificationResponse [deliveredA] [routineA] 8 1 ''completed'' (Some 15) None
          378015000) = SocketError ''Unauthorized''
   \<and> fst (socketNotificationResponse [deliveredA] [routineA] 8 2 ''completed'' (Some 15) None
          378015000) = SocketError ''Notification not found''
   \<and> fst (respond [deliveredA] [routineA] 1 8 ''completed'' (Some 15) None 378015000)
       = NotFound
   \<and> fst (respond [deliveredA] [routineA] 2 8 ''completed'' (Some 15) None 378015000)
       = NotFound"
  by (simp add: socketNotificationResponse_def respond_def notificationFindById_def
        lockFree_def ownedBy_def processing_def deliveredA_def pendingA_def)

section \<open>Delivery dispatcher\<close>

lemma failed_not_in_enum:
  "notificationSave ns (markFailed n) = None"
  by (simp add: notificationSave_def markFailed_def statusEnum_def)

lemma catchBlock_unchanged:
  "catchBlock ns n = ns"
  by (simp add: catchBlock_def failed_not_in_enum)

lemma delivered_saved:
  "notificationSave ns (n\<lparr>n_status := ''delivered'', n_deliveredAt := Some now\<rparr>)
     = Some (writeBack ns (n\<lparr>n_status := ''delivered'', n_deliveredAt := Some now\<rparr>))"
  by (simp add: notificationSave_def statusEnum_def)

text \<open>
  Whatever the transport does, the stored attempt counter of the dispatched
  notification is the document's counter, unchanged.
\<close>

lemma send_never_counts:
  "map n_deliveryAttempts (snd (sendRealTimeNotification io [n] n routine now))
     = [n_deliveryAttempts n]"
  by (simp add: sendRealTimeNotification_def catchBlock_unchanged delivered_saved
        writeBack_def Let_def split: option.splits)

text \<open>
  C6, the failing input. The pending notification of the scenario is dispatched to a
  working transport: it is stored as delivered with \<open>deliveryAttempts\<close> still 0,
  although one push was made; \<open>markAsDelivered\<close> of the model counts the attempt. On
  a raising transport the catch block counts the attempt on the document in memory,
  but its save is rejected: the stored notification stays pending with counter 0 and
  the rejection leaves the dispatcher. A snoozed notification dispatched again also
  keeps its counter. With no transport the dispatcher returns at once and stores
  nothing.
\<close>

theorem send_success_counts_no_attempt:
  "map (\<lambda>n. (n_status n, n_deliveredAt n, n_deliveryAttempts n))
     (snd (sendRealTimeNotification (Some serverTwo) [pendingA] pendingA (Some routineA)
             378000000))
     = [(''delivered'', Some 378000000, 0)]
   \<and> map_option (\<lambda>srv. map fst (receivedBy srv 7))
        (fst (sendRealTimeNotification (Some serverTwo) [pendingA] pendingA
                (Some routineA) 378000000))
     = Some [''notification'', ''notification-broadcast'']
   \<and> n_deliveryAttempts (markAsDelivered pendingA 378000000) = 1
   \<and> n_deliveryAttempts (markFailed pendingA) = 1
   \<and> notificationSave [pendingA] (markFailed pendingA) = None
   \<and> sendRealTimeNotification (Some (serverTwo\<lparr>throws := True\<rparr>)) [pendingA] pendingA
        (Some routineA) 378000000
     = (Some (serverTwo\<lparr>throws := True\<rparr>), [pendingA])
   \<and> sendRejects (Some (serverTwo\<lparr>throws := True\<rparr>)) [pendingA] pendingA (Some routineA)
        378000000
   \<and> map (\<lambda>n. (n_status n, n_deliveryAttempts n))
       (snd (checkSnoozedNotifications (Some serverTwo) [snoozedA] [routineA] 378300000))
     = [(''delivered'', 0)]
   \<and> snd (sendRealTimeNotification None [pendingA] pendingA (Some routineA) 378000000)
     = [pendingA]"
  by (simp add: sendRealTimeNotification_def sendRejects_def catchBlock_def
        notificationSave_def writeBack_def statusEnum_def markFailed_def
        markAsDelivered_def checkSnoozedNotifications_def snoozedDue_def
        routineFindById_def receivedBy_def toRoomEmit_def emitAll_def Let_def
        serverTwo_def pendingA_def snoozedA_def deliveredA_def routineA_def)

text \<open>
  C7, the failing input. User 7 owns the notification; socket 2 belongs to user 8.
  After the dispatch user 8's session has received the payload, with user 7's id
  added, under the event \<open>notification-broadcast\<close>.
\<close>

theorem send_reaches_other_users:
  "map_option (\<lambda>srv. receivedBy srv 8)
     (fst (sendRealTimeNotification (Some serverTwo) [pendingA] pendingA (Some routineA)
             378000000))
   = Some [(''notification-broadcast'',
            \<lparr>p_id = 1, p_title = ''Stretch'', p_message = ''Stand up'', p_sound = ''bell'',
             p_volume = 1 / 2, p_routineId = 1, p_timestamp = 378000000,
             p_type = ''alarm'', p_userId = Some 7, p_broadcast = True\<rparr>)]"
  by (simp add: sendRealTimeNotification_def notificationData_def receivedBy_def
        toRoomEmit_def emitAll_def orString_def orVolume_def Let_def
        notificationSave_def writeBack_def statusEnum_def
        serverTwo_def pendingA_def routineA_def)

section \<open>Routine toggling\<close>

lemma inactive_never_due:
  "\<not> r_isActive r \<Longrightarrow> \<not> isDue t d r"
  by (simp add: isDue_def)

lemma processRoutines_nothing_due:
  "checkScheduledRoutines io ns (filter (\<lambda>r. \<not> r_isActive r) rs) now = (io, ns)"
proof -
  have "filter (isDue (currentTime now) (getDay now)) (filter (\<lambda>r. \<not> r_isActive r) rs) = []"
    unfolding filter_empty_conv using inactive_never_due by auto
  then show ?thesis by (simp add: checkScheduledRoutines_def)
qed

lemma toggle_deactivate_unchanged:
  assumes "find (\<lambda>r. r_id r = i \<and> r_user r = u) rs = Some r" and "r_isActive r"
  shows "snd (snd (toggle rs ns i u)) = ns"
  using assms by (simp add: toggle_def scheduleRoutineNotifications_def Let_def)

lemma toggle_keeps_cancelled:
  assumes "n \<in> set ns" and "n_status n = ''cancelled''"
  shows "n \<in> set (snd (snd (toggle rs ns i u)))"
  using assms
  by (simp add: toggle_def scheduleRoutineNotifications_def Let_def split: option.splits)

text \<open>
  C4, the failing input (the spec's scenario E). The active routine has a pending and
  a snoozed notification. Toggling deactivates the routine and leaves both
  notifications as they were; the snooze scan at 09:05 then dispatches the snoozed one
  again. \<open>cancelRoutineNotifications\<close>, which no caller invokes, would have set both to
  cancelled.
\<close>

theorem toggle_deactivation_cancels_nothing:
  "toggle [routineA] [pendingA, snoozedA] 1 7
     = (Success, [routineA\<lparr>r_isActive := False\<rparr>], [pendingA, snoozedA])
   \<and> map n_status
       (snd (checkSnoozedNotifications (Some serverTwo) [pendingA, snoozedA]
               [routineA\<lparr>r_isActive := False\<rparr>] 378300000))
     = [''pending'', ''delivered'']
   \<and> map_option (\<lambda>srv. map fst (receivedBy srv 7))
        (fst (checkSnoozedNotifications (Some serverTwo) [pendingA, snoozedA]
                [routineA\<lparr>r_isActive := False\<rparr>] 378300000))
     = Some [''notification'', ''notification-broadcast'']
   \<and> map n_status (cancelRoutineNotifications [pendingA, snoozedA] 1)
     = [''cancelled'', ''cancelled'']"
  by (simp add: toggle_def scheduleRoutineNotifications_def routineSave_def
        checkSnoozedNotifications_def snoozedDue_def sendRealTimeNotification_def
        sendRejects_def notificationSave_def writeBack_def statusEnum_def markFailed_def
        routineFindById_def cancelRoutineNotifications_def
        receivedBy_def toRoomEmit_def emitAll_def Let_def
        serverTwo_def pendingA_def snoozedA_def deliveredA_def routineA_def)

section \<open>Duplicate suppression in the due scan\<close>

lemma fold_max_bounds:
  "(a::nat) \<le> fold max xs a \<and> (\<forall>x \<in> set xs. x \<le> fold max xs a)"
proof (induction xs arbitrary: a)
  case Nil
  show ?case by simp
next
  case (Cons x xs)
  have "max x a \<le> fold max xs (max x a)" and "\<forall>y \<in> set xs. y \<le> fold max xs (max x a)"
    using Cons.IH [of "max x a"] by simp_all
  then show ?case by auto
qed

lemma freshId_fresh:
  assumes "m \<in> set ns"
  shows "n_id m \<noteq> freshId ns"
proof -
  have "n_id m \<le> fold max (map n_id ns) 0"
    using fold_max_bounds [of 0 "map n_id ns"] assms by simp
  then show ?thesis by (simp add: freshId_def)
qed

lemma save_append_fresh:
  assumes "\<forall>m \<in> set ns. n_id m \<noteq> n_id x" and "n_id n = n_id x"
    and "n_status x \<in> set statusEnum"
  shows "notificationSave (ns @ [n]) x = Some (ns @ [x])"
proof -
  have "map (\<lambda>m. if n_id m = n_id x then x else m) ns = ns"
    using assms(1) by (simp add: map_idI)
  then show ?thesis using assms(2,3) by (simp add: notificationSave_def writeBack_def)
qed

lemma active_pending: "''pending'' \<in> set activeStatuses"
  by (simp add: activeStatuses_def)

lemma active_delivered: "''delivered'' \<in> set activeStatuses"
  by (simp add: activeStatuses_def)

text \<open>
  The dispatch of a notification just inserted leaves it stored as the last document,
  pending or delivered, whatever the transport does.
\<close>

lemma send_after_insert:
  assumes fresh: "\<forall>m \<in> set ns. n_id m \<noteq> n_id n" and pend: "n_status n = ''pending''"
  shows "\<exists>io' n'. sendRealTimeNotification io (notificationInsert ns n) n (Some r) now
                     = (io', ns @ [n'])
           \<and> n_user n' = n_user n \<and> n_routine n' = n_routine n
           \<and> n_scheduledFor n' = n_scheduledFor n
           \<and> n_status n' \<in> set activeStatuses"
proof (cases io)
  case None
  then show ?thesis
    using pend by (simp add: sendRealTimeNotification_def notificationInsert_def
        active_pending)
next
  case (Some srv)
  show ?thesis
  proof (cases "throws srv")
    case True
    then show ?thesis
      using Some pend by (simp add: sendRealTimeNotification_def notificationInsert_def
          catchBlock_unchanged active_pending)
  next
    case False
    let ?d = "n\<lparr>n_status := ''delivered'', n_deliveredAt := Some now\<rparr>"
    have "notificationSave (ns @ [n]) ?d = Some (ns @ [?d])"
      by (rule save_append_fresh) (use fresh in \<open>simp_all add: statusEnum_def\<close>)
    then show ?thesis
      using Some False by (simp add: sendRealTimeNotification_def notificationInsert_def
          Let_def active_delivered)
  qed
qed

lemma createAndSend_dup:
  "find (isRecentFor r now) ns = Some e \<Longrightarrow> createAndSendNotification io ns r T now = (io, ns)"
  by (simp add: createAndSendNotification_def)

lemma createAndSend_new:
  assumes "find (isRecentFor r now) ns = None"
  shows "\<exists>io' n'. createAndSendNotification io ns r T now = (io', ns @ [n'])
           \<and> n_user n' = r_user r \<and> n_routine n' = r_id r
           \<and> n_scheduledFor n' = T + adaptiveAdjustmentOf r * 60 * 1000
           \<and> n_status n' \<in> set activeStatuses"
proof -
  let ?n = "newNotification (freshId ns) r T"
  have fresh: "\<forall>m \<in> set ns. n_id m \<noteq> n_id ?n"
    using freshId_fresh by (simp add: newNotification_def)
  have pend: "n_status ?n = ''pending''" by (simp add: newNotification_def)
  have flds: "n_user ?n = r_user r" "n_routine ?n = r_id r"
    "n_scheduledFor ?n = T + adaptiveAdjustmentOf r * 60 * 1000"
    by (simp_all add: newNotification_def)
  have eq: "createAndSendNotification io ns r T now
              = sendRealTimeNotification io (notificationInsert ns ?n) ?n (Some r) now"
    using assms by (simp add: createAndSendNotification_def Let_def)
  show ?thesis
    unfolding eq using send_after_insert [OF fresh pend, of io r now]
    by (simp only: flds)
qed

lemma createAndSend_shape:
  "\<exists>io' extra. createAndSendNotification io ns r T now = (io', ns @ extra)
     \<and> (\<forall>n \<in> set extra. n_routine n = r_id r)"
proof (cases "find (isRecentFor r now) ns")
  case None
  from createAndSend_new [OF None, of io T] obtain io' n' where
    "createAndSendNotification io ns r T now = (io', ns @ [n'])" "n_routine n' = r_id r"
    by blast
  then have "createAndSendNotification io ns r T now = (io', ns @ [n'])
     \<and> (\<forall>n \<in> set [n']. n_routine n = r_id r)"
    by simp
  then show ?thesis by blast
next
  case (Some e)
  have "createAndSendNotification io ns r T now = (io, ns @ [])
     \<and> (\<forall>n \<in> set []. n_routine n = r_id r)"
    using createAndSend_dup [OF Some] by simp
  then show ?thesis by blast
qed

lemma processRoutines_others:
  assumes "\<forall>r \<in> set ds. r_id r \<noteq> k"
  shows "\<exists>io' extra. processRoutines io ns ds now = (io', ns @ extra)
     \<and> (\<forall>n \<in> set extra. n_routine n \<noteq> k)"
  using assms
proof (induction ds arbitrary: io ns)
  case Nil
  have "processRoutines io ns [] now = (io, ns @ [])
     \<and> (\<forall>n \<in> set []. n_routine n \<noteq> k)"
    by simp
  then show ?case by blast
next
  case (Cons r ds)
  from createAndSend_shape [of io ns r now now] obtain io1 e1 where
    s1: "createAndSendNotification io ns r now now = (io1, ns @ e1)"
    and r1: "\<forall>n \<in> set e1. n_routine n = r_id r"
    by blast
  have rest: "\<forall>r \<in> set ds. r_id r \<noteq> k" using Cons.prems by simp
  from Cons.IH [OF rest, of io1 "ns @ e1"] obtain io2 e2 where
    s2: "processRoutines io1 (ns @ e1) ds now = (io2, (ns @ e1) @ e2)"
    and r2: "\<forall>n \<in> set e2. n_routine n \<noteq> k"
    by blast
  have "r_id r \<noteq> k" using Cons.prems by simp
  with r1 have r1': "\<forall>n \<in> set e1. n_routine n \<noteq> k" by simp
  have "processRoutines io ns (r # ds) now = (io2, ns @ (e1 @ e2))
     \<and> (\<forall>n \<in> set (e1 @ e2). n_routine n \<noteq> k)"
    using s1 s2 r1' r2 by auto
  then show ?case by blast
qed

lemma notificationsOf_others:
  assumes "\<forall>n \<in> set extra. n_routine n \<noteq> k"
  shows "notificationsOf k (ns @ extra) = notificationsOf k ns"
  using assms by (simp add: notificationsOf_def)

lemma processRoutines_append:
  "processRoutines io ns (xs @ ys) now =
     (case processRoutines io ns xs now of (io', ns') \<Rightarrow> processRoutines io' ns' ys now)"
  by (induction xs arbitrary: io ns) (simp_all split: prod.splits)

lemma recent_of_routine:
  "(find (isRecentFor r now) ns = None)
     = (find (isRecentFor r now) (notificationsOf (r_id r) ns) = None)"
  by (auto simp: find_None_iff notificationsOf_def isRecentFor_def)

text \<open>
  What one pass over the due routines does to the notifications of a routine that is
  met once: nothing if a recent one is stored, one new notification otherwise.
\<close>

lemma processRoutines_one:
  assumes o1: "\<forall>r \<in> set ds1. r_id r \<noteq> r_id R" and o2: "\<forall>r \<in> set ds2. r_id r \<noteq> r_id R"
  shows "\<exists>io' ns'. processRoutines io ns (ds1 @ R # ds2) now = (io', ns')
     \<and> (if find (isRecentFor R now) ns = None
        then \<exists>n'. notificationsOf (r_id R) ns' = notificationsOf (r_id R) ns @ [n']
               \<and> n_user n' = r_user R \<and> n_routine n' = r_id R
               \<and> n_scheduledFor n' = now + adaptiveAdjustmentOf R * 60 * 1000
               \<and> n_status n' \<in> set activeStatuses
        else notificationsOf (r_id R) ns' = notificationsOf (r_id R) ns)"
proof -
  from processRoutines_others [OF o1, of io ns now] obtain io1 e1 where
    s1: "processRoutines io ns ds1 now = (io1, ns @ e1)"
    and r1: "\<forall>n \<in> set e1. n_routine n \<noteq> r_id R"
    by blast
  have of1: "notificationsOf (r_id R) (ns @ e1) = notificationsOf (r_id R) ns"
    by (rule notificationsOf_others [OF r1])
  have rec: "(find (isRecentFor R now) (ns @ e1) = None) = (find (isRecentFor R now) ns = None)"
    using recent_of_routine [of R now "ns @ e1"] recent_of_routine [of R now ns] of1 by simp
  show ?thesis
  proof (cases "find (isRecentFor R now) ns")
    case None
    then have none1: "find (isRecentFor R now) (ns @ e1) = None" using rec by simp
    from createAndSend_new [OF none1, of io1 now] obtain io2 n' where
      s2: "createAndSendNotification io1 (ns @ e1) R now now = (io2, (ns @ e1) @ [n'])"
      and p: "n_user n' = r_user R" "n_routine n' = r_id R"
        "n_scheduledFor n' = now + adaptiveAdjustmentOf R * 60 * 1000"
        "n_status n' \<in> set activeStatuses"
      by blast
    from processRoutines_others [OF o2, of io2 "(ns @ e1) @ [n']" now] obtain io3 e3 where
      s3: "processRoutines io2 ((ns @ e1) @ [n']) ds2 now = (io3, ((ns @ e1) @ [n']) @ e3)"
      and r3: "\<forall>n \<in> set e3. n_routine n \<noteq> r_id R"
      by blast
    have run: "processRoutines io ns (ds1 @ R # ds2) now = (io3, ((ns @ e1) @ [n']) @ e3)"
      using s1 s2 s3 by (simp add: processRoutines_append)
    have "notificationsOf (r_id R) (((ns @ e1) @ [n']) @ e3)
            = notificationsOf (r_id R) ((ns @ e1) @ [n'])"
      by (rule notificationsOf_others [OF r3])
    also have "\<dots> = notificationsOf (r_id R) (ns @ e1) @ [n']"
      using p(2) by (simp add: notificationsOf_def)
    also have "\<dots> = notificationsOf (r_id R) ns @ [n']"
      using of1 by simp
    finally have res: "notificationsOf (r_id R) (((ns @ e1) @ [n']) @ e3)
            = notificationsOf (r_id R) ns @ [n']" .
    show ?thesis
      using run res p None by auto
  next
    case (Some e)
    then obtain e' where some1: "find (isRecentFor R now) (ns @ e1) = Some e'"
      using rec by (cases "find (isRecentFor R now) (ns @ e1)") simp_all
    have s2: "createAndSendNotification io1 (ns @ e1) R now now = (io1, ns @ e1)"
      by (rule createAndSend_dup [OF some1])
    from processRoutines_others [OF o2, of io1 "ns @ e1" now] obtain io3 e3 where
      s3: "processRoutines io1 (ns @ e1) ds2 now = (io3, (ns @ e1) @ e3)"
      and r3: "\<forall>n \<in> set e3. n_routine n \<noteq> r_id R"
      by blast
    have run: "processRoutines io ns (ds1 @ R # ds2) now = (io3, (ns @ e1) @ e3)"
      using s1 s2 s3 by (simp add: processRoutines_append)
    have res: "notificationsOf (r_id R) ((ns @ e1) @ e3) = notificationsOf (r_id R) ns"
      using notificationsOf_others [OF r3, of "ns @ e1"] of1 by simp
    show ?thesis using run res Some by simp
  qed
qed

lemma due_list_split:
  assumes d: "distinct (map r_id rs)" and m: "R \<in> set rs"
  shows "(P R \<longrightarrow> (\<exists>ds1 ds2. filter P rs = ds1 @ R # ds2
                     \<and> (\<forall>r \<in> set ds1. r_id r \<noteq> r_id R) \<and> (\<forall>r \<in> set ds2. r_id r \<noteq> r_id R)))
       \<and> (\<not> P R \<longrightarrow> (\<forall>r \<in> set (filter P rs). r_id r \<noteq> r_id R))"
proof (intro conjI impI)
  assume "P R"
  then have "R \<in> set (filter P rs)" using m by simp
  then obtain ds1 ds2 where sp: "filter P rs = ds1 @ R # ds2"
    by (meson split_list)
  have "distinct (map r_id (filter P rs))" using d by (rule distinct_map_filter)
  then have "distinct (map r_id (ds1 @ R # ds2))" using sp by simp
  then have "r_id R \<notin> r_id ` set ds1 \<and> r_id R \<notin> r_id ` set ds2"
    by auto
  then have "(\<forall>r \<in> set ds1. r_id r \<noteq> r_id R) \<and> (\<forall>r \<in> set ds2. r_id r \<noteq> r_id R)"
    by (metis imageI)
  with sp show "\<exists>ds1 ds2. filter P rs = ds1 @ R # ds2
      \<and> (\<forall>r \<in> set ds1. r_id r \<noteq> r_id R) \<and> (\<forall>r \<in> set ds2. r_id r \<noteq> r_id R)"
    by blast
next
  assume np: "\<not> P R"
  have inj: "inj_on r_id (set rs)" using d by (simp add: distinct_map)
  show "\<forall>r \<in> set (filter P rs). r_id r \<noteq> r_id R"
  proof
    fix r assume "r \<in> set (filter P rs)"
    then have "r \<in> set rs" and "P r" by simp_all
    with np have "r \<noteq> R" by auto
    with inj \<open>r \<in> set rs\<close> m show "r_id r \<noteq> r_id R" by (auto dest: inj_onD)
  qed
qed

lemma scan_for_routine:
  assumes d: "distinct (map r_id rs)" and m: "R \<in> set rs"
  shows "\<exists>io' ns'. checkScheduledRoutines io ns rs now = (io', ns')
     \<and> (if isDue (currentTime now) (getDay now) R \<and> find (isRecentFor R now) ns = None
        then \<exists>n'. notificationsOf (r_id R) ns' = notificationsOf (r_id R) ns @ [n']
               \<and> n_user n' = r_user R \<and> n_routine n' = r_id R
               \<and> n_scheduledFor n' = now + adaptiveAdjustmentOf R * 60 * 1000
               \<and> n_status n' \<in> set activeStatuses
        else notificationsOf (r_id R) ns' = notificationsOf (r_id R) ns)"
proof (cases "isDue (currentTime now) (getDay now) R")
  case True
  from due_list_split [OF d m, of "isDue (currentTime now) (getDay now)"] True
  obtain ds1 ds2 where sp: "filter (isDue (currentTime now) (getDay now)) rs = ds1 @ R # ds2"
    and o1: "\<forall>r \<in> set ds1. r_id r \<noteq> r_id R" and o2: "\<forall>r \<in> set ds2. r_id r \<noteq> r_id R"
    by blast
  show ?thesis
    unfolding checkScheduledRoutines_def sp
    using processRoutines_one [OF o1 o2, of io ns now] True by simp
next
  case False
  from due_list_split [OF d m, of "isDue (currentTime now) (getDay now)"] False
  have o: "\<forall>r \<in> set (filter (isDue (currentTime now) (getDay now)) rs). r_id r \<noteq> r_id R"
    by blast
  from processRoutines_others [OF o, of io ns now] obtain io' extra where
    s: "processRoutines io ns (filter (isDue (currentTime now) (getDay now)) rs) now
          = (io', ns @ extra)"
    and r: "\<forall>n \<in> set extra. n_routine n \<noteq> r_id R"
    by blast
  show ?thesis
    unfolding checkScheduledRoutines_def
    using s notificationsOf_others [OF r, of ns] False by simp
qed

text \<open>
  The part of the duplicate suppression that holds, routine ids being unique and \<open>R\<close>
  a stored routine. If a notification of \<open>R\<close> and its owner is stored with status
  pending, delivered or snoozed and \<open>scheduledFor\<close> not more than five minutes before
  the scan time \<open>T\<close>, the scan at \<open>T\<close> leaves the notifications of \<open>R\<close> as they are.
  If \<open>R\<close> is due at \<open>T\<close>, no such notification is stored, and the adjusted time
  \<open>T\<close> plus the adjustment is not more than five minutes before \<open>T2\<close>, the scan at
  \<open>T\<close> followed by the scan at \<open>T2\<close> adds exactly one notification of \<open>R\<close>,
  whatever the transport does.
\<close>

lemma due_scan_suppression:
  assumes d: "distinct (map r_id rs)" and m: "R \<in> set rs"
  shows "((\<exists>n \<in> set ns. n_user n = r_user R \<and> n_routine n = r_id R
              \<and> n_status n \<in> set activeStatuses
              \<and> T - 5 * 60 * 1000 \<le> n_scheduledFor n)
          \<longrightarrow> notificationsOf (r_id R) (snd (checkScheduledRoutines io ns rs T))
                = notificationsOf (r_id R) ns)
       \<and> (isDue (currentTime T) (getDay T) R
            \<and> \<not> (\<exists>n \<in> set ms. n_user n = r_user R \<and> n_routine n = r_id R
                    \<and> n_status n \<in> set activeStatuses
                    \<and> T - 5 * 60 * 1000 \<le> n_scheduledFor n)
            \<and> T2 - 5 * 60 * 1000 \<le> T + adaptiveAdjustmentOf R * 60 * 1000
          \<longrightarrow> length (notificationsOf (r_id R)
                         (snd (checkScheduledRoutines
                                 (fst (checkScheduledRoutines jo ms rs T))
                                 (snd (checkScheduledRoutines jo ms rs T)) rs T2)))
                = length (notificationsOf (r_id R) ms) + 1)"
proof (intro conjI impI)
  assume "\<exists>n \<in> set ns. n_user n = r_user R \<and> n_routine n = r_id R
              \<and> n_status n \<in> set activeStatuses
              \<and> T - 5 * 60 * 1000 \<le> n_scheduledFor n"
  then obtain n where "n \<in> set ns" and "isRecentFor R T n"
    unfolding isRecentFor_def by blast
  then have some: "find (isRecentFor R T) ns \<noteq> None"
    by (auto simp: find_None_iff)
  from scan_for_routine [OF d m, of io ns T] some
  show "notificationsOf (r_id R) (snd (checkScheduledRoutines io ns rs T))
          = notificationsOf (r_id R) ns"
    by auto
next
  assume h: "isDue (currentTime T) (getDay T) R
            \<and> \<not> (\<exists>n \<in> set ms. n_user n = r_user R \<and> n_routine n = r_id R
                    \<and> n_status n \<in> set activeStatuses
                    \<and> T - 5 * 60 * 1000 \<le> n_scheduledFor n)
            \<and> T2 - 5 * 60 * 1000 \<le> T + adaptiveAdjustmentOf R * 60 * 1000"
  then have none: "find (isRecentFor R T) ms = None"
    unfolding find_None_iff isRecentFor_def by blast
  from scan_for_routine [OF d m, of jo ms T] h none obtain io1 ns1 n' where
    s1: "checkScheduledRoutines jo ms rs T = (io1, ns1)"
    and of1: "notificationsOf (r_id R) ns1 = notificationsOf (r_id R) ms @ [n']"
    and p: "n_user n' = r_user R" "n_routine n' = r_id R"
      "n_scheduledFor n' = T + adaptiveAdjustmentOf R * 60 * 1000"
      "n_status n' \<in> set activeStatuses"
    by auto
  have "n' \<in> set (notificationsOf (r_id R) ns1)" using of1 by simp
  then have mem: "n' \<in> set ns1" by (simp add: notificationsOf_def)
  have "isRecentFor R T2 n'"
    using p h by (simp add: isRecentFor_def)
  with mem have some: "find (isRecentFor R T2) ns1 \<noteq> None"
    by (auto simp: find_None_iff)
  from scan_for_routine [OF d m, of io1 ns1 T2] some
  have "notificationsOf (r_id R) (snd (checkScheduledRoutines io1 ns1 rs T2))
          = notificationsOf (r_id R) ns1"
    by auto
  then show "length (notificationsOf (r_id R)
                         (snd (checkScheduledRoutines
                                 (fst (checkScheduledRoutines jo ms rs T))
                                 (snd (checkScheduledRoutines jo ms rs T)) rs T2)))
                = length (notificationsOf (r_id R) ms) + 1"
    unfolding s1 using of1 by simp
qed

text \<open>Ten completions within thirty seconds take the adjustment from 0 to -10.\<close>

lemma ten_fast_completions:
  "map (\<lambda>r. adjustment (r_adaptiveTiming r))
     (last (updateTrace [routineA] 1
        (replicate 10 (\<lparr>action = ''completed'', responseTime = Some 5, timestamp = 0\<rparr>, 0))))
   = [- 10]"
  by code_simp

text \<open>
  C5, the failing input. The routine is due on Monday at 09:00 and carries an
  adjustment of -10 minutes, the value that fast completions lead to. The first scan
  stores and delivers a notification scheduled for 08:50; the second scan of the same
  instant asks for a notification scheduled at 08:55 or later, finds none although one
  was sent a moment ago, and stores a second one. With an adjustment of 0 the same two
  scans store one notification.
\<close>

theorem due_scan_twice_duplicates:
  "isDue (currentTime 378000000) (getDay 378000000) (withAdjustment routineA (- 10))
   \<and> map (\<lambda>n. (n_routine n, n_status n, n_scheduledFor n))
       (snd (checkScheduledRoutines
               (fst (checkScheduledRoutines (Some serverTwo) []
                       [withAdjustment routineA (- 10)] 378000000))
               (snd (checkScheduledRoutines (Some serverTwo) []
                       [withAdjustment routineA (- 10)] 378000000))
               [withAdjustment routineA (- 10)] 378000000))
     = [(1, ''delivered'', 377400000), (1, ''delivered'', 377400000)]
   \<and> map (\<lambda>n. (n_routine n, n_status n, n_scheduledFor n))
       (snd (checkScheduledRoutines
               (fst (checkScheduledRoutines (Some serverTwo) [] [routineA] 378000000))
               (snd (checkScheduledRoutines (Some serverTwo) [] [routineA] 378000000))
               [routineA] 378000000))
     = [(1, ''delivered'', 378000000)]"
  by (simp add: checkScheduledRoutines_def isDue_def currentTime_def getDay_def getHours_def
        getMinutes_def pad2_def digit_def withAdjustment_def routineA_def
        createAndSendNotification_def isRecentFor_def activeStatuses_def newNotification_def
        freshId_def notificationInsert_def sendRealTimeNotification_def notificationSave_def
        writeBack_def statusEnum_def
        notificationData_def toRoomEmit_def emitAll_def orString_def orVolume_def
        adaptiveAdjustmentOf_def toString2_def serverTwo_def Let_def)

section \<open>The model method and the scenario data\<close>

text \<open>
  \<open>handleUserResponse\<close> of the notification model applies the transition with a
  snooze of five minutes.
\<close>

lemma handleUserResponse_fields:
  "n_status (handleUserResponse n act rt now) = act"
  "n_userResponse (handleUserResponse n act rt now)
     = Some \<lparr>action = act, responseTime = rt, timestamp = now\<rparr>"
  "n_completedAt (handleUserResponse n act rt now)
     = (if act = ''completed'' then Some now else n_completedAt n)"
  "n_snoozedUntil (handleUserResponse n act rt now)
     = (if act = ''snoozed'' then Some (now + 300000) else n_snoozedUntil n)"
  by (simp_all add: handleUserResponse_def Let_def)

text \<open>
  The spec's scenario A: at \<open>mondayNine\<close> the clock reads 09:00 on day 1, the factory
  builds \<open>pendingA\<close> for \<open>routineA\<close>, and the scan of an empty store leaves exactly
  that notification, delivered.
\<close>

lemma scenario_A:
  "currentTime mondayNine = ''09:00''"
  "getDay mondayNine = 1"
  "newNotification 1 routineA mondayNine = pendingA"
  "snd (checkScheduledRoutines (Some serverTwo) [] [routineA] mondayNine) = [deliveredA]"
  by (simp_all add: checkScheduledRoutines_def isDue_def currentTime_def getDay_def
        getHours_def getMinutes_def pad2_def digit_def mondayNine_def routineA_def
        createAndSendNotification_def isRecentFor_def newNotification_def freshId_def
        notificationInsert_def sendRealTimeNotification_def notificationSave_def
        writeBack_def statusEnum_def
        notificationData_def toRoomEmit_def emitAll_def orString_def orVolume_def
        adaptiveAdjustmentOf_def toString2_def serverTwo_def pendingA_def deliveredA_def
        Let_def)

end
